theory Spec2Isabelle
  imports Main
begin

section \<open>Data model of the application form (ApplicationForm.tsx)\<close>

text \<open>
  The component keeps its form record in a JavaScript object that is updated with
  computed keys (\<^verbatim>\<open>{ ...prev, [field]: value }\<close>), so the record is a map from
  property names to JavaScript values. A property that is absent reads as
  \<^verbatim>\<open>undefined\<close>, which is \<open>None\<close> here. A selected file is opaque: only its
  name is kept.
\<close>

datatype jsfile = File string

datatype jsval = VStr string | VBool bool | VFile jsfile | VNull

type_synonym ApplicationFormData = "string \<rightharpoonup> jsval"

record FormError =
  field :: string
  message :: string

record FormSection =
  sec_id :: string
  title :: string
  badge :: string

text \<open>The fixed, ordered section list (source lines 21-33).\<close>

definition formSections :: "FormSection list" where
  "formSections =
    [\<lparr>sec_id = ''eligibility'', title = ''Eligibility'', badge = ''1''\<rparr>,
     \<lparr>sec_id = ''contact'', title = ''Contact Information'', badge = ''2''\<rparr>,
     \<lparr>sec_id = ''personal'', title = ''Personal Details'', badge = ''3''\<rparr>,
     \<lparr>sec_id = ''background'', title = ''Background & Experience'', badge = ''4''\<rparr>,
     \<lparr>sec_id = ''motivation'', title = ''Motivation & Goals'', badge = ''5''\<rparr>,
     \<lparr>sec_id = ''business'', title = ''Business Plan'', badge = ''6''\<rparr>,
     \<lparr>sec_id = ''photos'', title = ''Photos'', badge = ''7''\<rparr>,
     \<lparr>sec_id = ''terms'', title = ''Terms & Conditions'', badge = ''8''\<rparr>,
     \<lparr>sec_id = ''profile'', title = ''Personal Profile'', badge = ''9''\<rparr>,
     \<lparr>sec_id = ''countryInfo'', title = ''Country Information'', badge = ''10''\<rparr>,
     \<lparr>sec_id = ''review'', title = ''Review & Submit'', badge = ''11''\<rparr>]"

definition sectionIds :: "string list" where
  "sectionIds = map sec_id formSections"

text \<open>
  What the handlers do to the outside world is kept as a log: the two kinds of toast
  (title and description), a timer being armed (delay in milliseconds), the parent's
  success callback, and the scroll reset of the form container.
\<close>

datatype effect =
    ToastError string string
  | ToastSuccess string string
  | SetTimeout nat
  | OnSubmitSuccess
  | ScrollToTop

text \<open>The \<^verbatim>\<open>useState\<close> cells of the component (source lines 36-99).\<close>

record ApplicationFormState =
  currentSection :: string
  formData :: ApplicationFormData
  errors :: "FormError list"
  focused :: "string option"
  agreeTerms :: bool
  isSubmitting :: bool
  effects :: "effect list"

definition initialFormData :: ApplicationFormData where
  "initialFormData = map_of
    [(''firstName'', VStr ''''), (''middleName'', VStr ''''), (''lastName'', VStr ''''),
     (''fullName'', VStr ''''), (''email'', VStr ''''), (''phone'', VStr ''''),
     (''homePhone'', VStr ''''), (''country'', VStr ''''), (''city'', VStr ''''),
     (''street'', VStr ''''), (''addressLine2'', VStr ''''), (''stateRegion'', VStr ''''),
     (''zipCode'', VStr ''''), (''experience'', VStr ''''), (''education'', VStr ''''),
     (''skills'', VStr ''''), (''motivation'', VStr ''''), (''goals'', VStr ''''),
     (''strategy'', VStr ''''), (''dateOfBirth'', VStr ''''), (''age'', VStr ''''),
     (''ethnicity'', VStr ''''), (''representCountry'', VStr ''''),
     (''alternateCountry'', VStr ''''), (''bio'', VStr ''''), (''socialMedia'', VStr ''''),
     (''height'', VStr ''''), (''weight'', VStr ''''), (''bust'', VStr ''''),
     (''waist'', VStr ''''), (''hips'', VStr ''''), (''dressSize'', VStr ''''),
     (''shoeSize'', VStr ''''), (''swimsuitSizeTop'', VStr ''''),
     (''swimsuitSizeBottom'', VStr ''''), (''schoolAttended'', VStr ''''),
     (''fieldOfStudy'', VStr ''''), (''highestEducation'', VStr ''''),
     (''threeWords'', VStr ''''), (''hobbies'', VStr ''''),
     (''pageantExperience'', VStr ''''), (''charity'', VStr ''''),
     (''hearAboutUs'', VStr ''''),
     (''headShot1'', VNull), (''headShot2'', VNull), (''bodyShot1'', VNull),
     (''bodyShot2'', VNull), (''additionalImage1'', VNull), (''additionalImage2'', VNull),
     (''countryOverview'', VStr ''''), (''culturalInfo'', VStr ''''),
     (''isEligible'', VBool False), (''hasValidPassport'', VBool False),
     (''canTravel'', VBool False), (''isGoodHealth'', VBool False),
     (''willFollowRules'', VBool False)]"

definition initialState :: ApplicationFormState where
  "initialState =
    \<lparr>currentSection = ''eligibility'', formData = initialFormData, errors = [],
     focused = None, agreeTerms = False, isSubmitting = False, effects = []\<rparr>"

section \<open>JavaScript primitives used by the component\<close>

text \<open>Truthiness of a property read (\<^verbatim>\<open>Boolean(v)\<close>, \<^verbatim>\<open>if (v)\<close>).\<close>

fun truthy :: "jsval option \<Rightarrow> bool" where
  "truthy None = False"
| "truthy (Some (VStr s)) = (s \<noteq> [])"
| "truthy (Some (VBool b)) = b"
| "truthy (Some (VFile f)) = True"
| "truthy (Some VNull) = False"

text \<open>How \<^verbatim>\<open>Array.prototype.join\<close> prints one element.\<close>

fun joinElem :: "jsval option \<Rightarrow> string" where
  "joinElem None = []"
| "joinElem (Some (VStr s)) = s"
| "joinElem (Some (VBool b)) = (if b then ''true'' else ''false'')"
| "joinElem (Some (VFile f)) = ''[object File]''"
| "joinElem (Some VNull) = []"

fun join :: "string \<Rightarrow> string list \<Rightarrow> string" where
  "join sep [] = []"
| "join sep [x] = x"
| "join sep (x # y # ys) = x @ sep @ join sep (y # ys)"

text \<open>\<^verbatim>\<open>findIndex\<close> answers -1 when no element satisfies the predicate.\<close>

fun findIndex :: "('a \<Rightarrow> bool) \<Rightarrow> 'a list \<Rightarrow> int" where
  "findIndex P [] = - 1"
| "findIndex P (x # xs) =
     (if P x then 0 else (let i = findIndex P xs in if i < 0 then - 1 else i + 1))"

text \<open>Decimal printing of a number; \<open>None\<close> stands for \<^verbatim>\<open>NaN\<close>.\<close>

definition digitChar :: "nat \<Rightarrow> char" where
  "digitChar d = ''0123456789'' ! d"

fun showNat :: "nat \<Rightarrow> string" where
  "showNat n = (if n < 10 then [digitChar n] else showNat (n div 10) @ [digitChar (n mod 10)])"

definition numToString :: "int option \<Rightarrow> string" where
  "numToString x =
     (case x of None \<Rightarrow> ''NaN''
      | Some i \<Rightarrow> if i < 0 then CHR ''-'' # showNat (nat (- i)) else showNat (nat i))"

declare showNat.simps [simp del]

section \<open>The helpers of utils/formUtils\<close>

text \<open>
  The component imports \<^verbatim>\<open>validateApplicationForm\<close>, \<^verbatim>\<open>calculateAge\<close> and
  \<^verbatim>\<open>isAgeInRange\<close> from \<^verbatim>\<open>@/utils/formUtils\<close>. The handlers below take them as
  parameters, so that what is proved about a handler holds for every implementation of
  the helpers.
\<close>

type_synonym validator = "ApplicationFormData \<Rightarrow> string \<Rightarrow> FormError list"

type_synonym ageCalculator = "jsval \<Rightarrow> int option"

type_synonym ageRangeCheck = "jsval \<Rightarrow> int \<Rightarrow> int \<Rightarrow> bool"

section \<open>Derived fields: the two effects on the form record\<close>

text \<open>
  Source lines 110-118. The effect reads the name parts of the record it was rendered
  with (\<open>fd\<close>) and writes \<^verbatim>\<open>fullName\<close> into the latest record (\<open>prev\<close>).
\<close>

definition fullNameEffect :: "ApplicationFormData \<Rightarrow> ApplicationFormData \<Rightarrow> ApplicationFormData" where
  "fullNameEffect fd prev =
     (let fullName = join '' '' (map joinElem
            (filter truthy [fd ''firstName'', fd ''middleName'', fd ''lastName'']))
      in prev(''fullName'' \<mapsto> VStr fullName))"

text \<open>Source lines 121-126. There is no branch for a falsy date of birth.\<close>

definition ageEffect ::
  "ageCalculator \<Rightarrow> ApplicationFormData \<Rightarrow> ApplicationFormData \<Rightarrow> ApplicationFormData" where
  "ageEffect calculateAge fd prev =
     (case fd ''dateOfBirth'' of
        None \<Rightarrow> prev
      | Some dob \<Rightarrow>
          if truthy (Some dob)
          then (let age = numToString (calculateAge dob) in prev(''age'' \<mapsto> VStr age))
          else prev)"

text \<open>
  After a handler has changed the state the component renders again, and an effect runs
  when one of its dependencies differs from the previous render: the scroll reset on
  \<^verbatim>\<open>currentSection\<close> (lines 103-107), then the full name, then the age.
\<close>

definition commit ::
  "ageCalculator \<Rightarrow> ApplicationFormState \<Rightarrow> ApplicationFormState \<Rightarrow> ApplicationFormState" where
  "commit calculateAge old new =
     (let fd = formData new;
          s1 = (if currentSection new \<noteq> currentSection old
                then new\<lparr>effects := effects new @ [ScrollToTop]\<rparr> else new);
          s2 = (if fd ''firstName'' \<noteq> formData old ''firstName''
                   \<or> fd ''middleName'' \<noteq> formData old ''middleName''
                   \<or> fd ''lastName'' \<noteq> formData old ''lastName''
                then s1\<lparr>formData := fullNameEffect fd (formData s1)\<rparr> else s1);
          s3 = (if fd ''dateOfBirth'' \<noteq> formData old ''dateOfBirth''
                then s2\<lparr>formData := ageEffect calculateAge fd (formData s2)\<rparr> else s2)
      in s3)"

section \<open>The handlers\<close>

text \<open>Source lines 128-140.\<close>

definition handleFieldChange :: "string \<Rightarrow> string \<Rightarrow> ApplicationFormState \<Rightarrow> ApplicationFormState" where
  "handleFieldChange fld v st = st\<lparr>formData := (formData st)(fld \<mapsto> VStr v)\<rparr>"

definition handleCheckboxChange :: "string \<Rightarrow> bool \<Rightarrow> ApplicationFormState \<Rightarrow> ApplicationFormState" where
  "handleCheckboxChange fld checked st = st\<lparr>formData := (formData st)(fld \<mapsto> VBool checked)\<rparr>"

text \<open>The file list of the input element is \<^verbatim>\<open>FileList | null\<close>.\<close>

definition handleFileChange ::
  "string \<Rightarrow> jsfile list option \<Rightarrow> ApplicationFormState \<Rightarrow> ApplicationFormState" where
  "handleFileChange fld files st =
     (case files of
        None \<Rightarrow> st
      | Some fs \<Rightarrow>
          (case fs of
             [] \<Rightarrow> st
           | f # _ \<Rightarrow> st\<lparr>formData := (formData st)(fld \<mapsto> VFile f)\<rparr>))"

text \<open>Source lines 146-169.\<close>

definition ageRangeError :: FormError where
  "ageRangeError =
     \<lparr>field = ''dateOfBirth'',
      message = ''You must be between 18 and 35 years old to participate''\<rparr>"

definition handleNext ::
  "validator \<Rightarrow> ageRangeCheck \<Rightarrow> ApplicationFormState \<Rightarrow> ApplicationFormState" where
  "handleNext validateApplicationForm isAgeInRange st =
     (let sectionErrors0 = validateApplicationForm (formData st) (currentSection st);
          sectionErrors =
            (case formData st ''dateOfBirth'' of
               None \<Rightarrow> sectionErrors0
             | Some dob \<Rightarrow>
                 if currentSection st = ''eligibility'' \<and> truthy (Some dob)
                 then (if \<not> isAgeInRange dob 18 35
                       then sectionErrors0 @ [ageRangeError] else sectionErrors0)
                 else sectionErrors0);
          st1 = st\<lparr>errors := sectionErrors\<rparr>
      in if length sectionErrors = 0
         then (let currentIndex = findIndex (\<lambda>section. sec_id section = currentSection st) formSections
               in if currentIndex < int (length formSections) - 1
                  then st1\<lparr>currentSection := sec_id (formSections ! nat (currentIndex + 1))\<rparr>
                  else st1)
         else st1)"

text \<open>Source lines 171-177.\<close>

definition handlePrevious :: "ApplicationFormState \<Rightarrow> ApplicationFormState" where
  "handlePrevious st =
     (let currentIndex = findIndex (\<lambda>section. sec_id section = currentSection st) formSections
      in if currentIndex > 0
         then st\<lparr>currentSection := sec_id (formSections ! nat (currentIndex - 1))\<rparr>
         else st)"

text \<open>Source lines 179-221. The timer callback of the success branch is \<open>submitTimeout\<close>.\<close>

definition termsError :: FormError where
  "termsError =
     \<lparr>field = ''terms'', message = ''You must agree to the terms and conditions''\<rparr>"

definition submitErrorToast :: effect where
  "submitErrorToast =
     ToastError ''Please fix the errors before submitting''
       ''There are errors in your application that need to be corrected.''"

definition collectErrors :: "validator \<Rightarrow> ApplicationFormState \<Rightarrow> FormError list" where
  "collectErrors validateApplicationForm st =
     (let allErrors = foldl (\<lambda>allErrors section.
            if sec_id section \<noteq> ''review'' \<and> sec_id section \<noteq> ''terms''
            then allErrors @ validateApplicationForm (formData st) (sec_id section)
            else allErrors) [] formSections
      in if \<not> agreeTerms st then allErrors @ [termsError] else allErrors)"

definition handleSubmit :: "validator \<Rightarrow> ApplicationFormState \<Rightarrow> ApplicationFormState" where
  "handleSubmit validateApplicationForm st =
     (let allErrors = collectErrors validateApplicationForm st;
          st1 = st\<lparr>errors := allErrors\<rparr>
      in if length allErrors = 0
         then st1\<lparr>isSubmitting := True, effects := effects st1 @ [SetTimeout 2000]\<rparr>
         else (case find (\<lambda>section.
                     list_ex (\<lambda>error.
                       list_ex (\<lambda>e. field e = field error)
                         (validateApplicationForm (formData st) (sec_id section)))
                       allErrors) formSections of
                 None \<Rightarrow> st1
               | Some firstErrorSection \<Rightarrow>
                   if sec_id firstErrorSection \<noteq> currentSection st
                   then st1\<lparr>currentSection := sec_id firstErrorSection,
                            effects := effects st1 @ [submitErrorToast]\<rparr>
                   else st1))"

definition submitTimeout :: "ApplicationFormState \<Rightarrow> ApplicationFormState" where
  "submitTimeout st =
     st\<lparr>isSubmitting := False,
        effects := effects st @
          [OnSubmitSuccess,
           ToastSuccess ''Application submitted successfully''
             ''We'll review your application and contact you soon.'']\<rparr>"

section \<open>The wiring of the handlers to the page\<close>

text \<open>
  The desktop navigation bar (lines 254-299) has one button per section, with a guard
  on the index; the select element shown on narrow screens (lines 301-313) sets the
  section to the chosen option without one. The footer (lines 1531-1572) shows
  Previous unless the section is the first, Next unless it is the last, and Submit on
  the last, disabled while a submission is pending.
\<close>

definition navButtonClick :: "nat \<Rightarrow> ApplicationFormState \<Rightarrow> ApplicationFormState" where
  "navButtonClick index st =
     (let currentIndex = findIndex (\<lambda>s. sec_id s = currentSection st) formSections
      in if int index \<le> currentIndex
         then st\<lparr>currentSection := sec_id (formSections ! index)\<rparr>
         else st)"

definition mobileSelectChange :: "string \<Rightarrow> ApplicationFormState \<Rightarrow> ApplicationFormState" where
  "mobileSelectChange v st = st\<lparr>currentSection := v\<rparr>"

datatype event =
    ChangeField string string
  | ChangeCheckbox string bool
  | ChangeFile string "jsfile list option"
  | ToggleAgreeTerms
  | ClickNavButton nat
  | SelectSection string
  | ClickPrevious
  | ClickNext
  | ClickSubmit
  | TimerFires

fun handle ::
  "validator \<Rightarrow> ageRangeCheck \<Rightarrow> event \<Rightarrow> ApplicationFormState \<Rightarrow> ApplicationFormState" where
  "handle v r (ChangeField fld x) st = handleFieldChange fld x st"
| "handle v r (ChangeCheckbox fld b) st = handleCheckboxChange fld b st"
| "handle v r (ChangeFile fld files) st = handleFileChange fld files st"
| "handle v r ToggleAgreeTerms st = st\<lparr>agreeTerms := \<not> agreeTerms st\<rparr>"
| "handle v r (ClickNavButton index) st =
     (if index < length formSections then navButtonClick index st else st)"
| "handle v r (SelectSection x) st =
     (if x \<in> set sectionIds then mobileSelectChange x st else st)"
| "handle v r ClickPrevious st =
     (if currentSection st \<noteq> ''eligibility'' then handlePrevious st else st)"
| "handle v r ClickNext st =
     (if currentSection st \<noteq> ''review'' then handleNext v r st else st)"
| "handle v r ClickSubmit st =
     (if currentSection st = ''review'' \<and> \<not> isSubmitting st then handleSubmit v st else st)"
| "handle v r TimerFires st = submitTimeout st"

definition dispatch ::
  "validator \<Rightarrow> ageCalculator \<Rightarrow> ageRangeCheck \<Rightarrow> event \<Rightarrow> ApplicationFormState
     \<Rightarrow> ApplicationFormState" where
  "dispatch v c r ev st = commit c st (handle v r ev st)"

section \<open>Age helpers\<close>

text \<open>
  Modelled from the spec: the dates that \<^verbatim>\<open>calculateAge\<close> of utils/formUtils (not
  among the sources) works on. The spec writes a birth date as \<^verbatim>\<open>2000-06-15\<close>, the
  value format of the date input that the field is; \<open>parseDate\<close> reads that format
  and nothing else. The current date is a parameter (\<open>today\<close>).
\<close>

record date =
  year :: int
  month :: int
  day :: int

definition digitVal :: "char \<Rightarrow> nat option" where
  "digitVal c =
     (let n = (of_char c :: nat) in if 48 \<le> n \<and> n \<le> 57 then Some (n - 48) else None)"

fun parseDigits :: "nat \<Rightarrow> string \<Rightarrow> nat option" where
  "parseDigits acc [] = Some acc"
| "parseDigits acc (c # cs) =
     (case digitVal c of None \<Rightarrow> None | Some d \<Rightarrow> parseDigits (10 * acc + d) cs)"

definition parseDate :: "string \<Rightarrow> date option" where
  "parseDate s =
     (if length s = 10 \<and> s ! 4 = CHR ''-'' \<and> s ! 7 = CHR ''-''
      then (case (parseDigits 0 (take 4 s), parseDigits 0 (take 2 (drop 5 s)),
                  parseDigits 0 (drop 8 s)) of
              (Some y, Some m, Some d) \<Rightarrow> Some \<lparr>year = int y, month = int m, day = int d\<rparr>
            | _ \<Rightarrow> None)
      else None)"

text \<open>
  Modelled from the spec: \<^verbatim>\<open>calculateAge\<close> of utils/formUtils, which is not among the
  sources. The spec gives the age as the difference of the years, one less when today's
  (month, day) comes before the birth date's (month, day). A value that is not a date
  string gives \<^verbatim>\<open>NaN\<close> (\<open>None\<close>).
\<close>

definition calculateAge :: "date \<Rightarrow> ageCalculator" where
  "calculateAge today v =
     (case v of
        VStr s \<Rightarrow>
          (case parseDate s of
             None \<Rightarrow> None
           | Some d \<Rightarrow>
               Some (year today - year d -
                 (if month today < month d \<or> (month today = month d \<and> day today < day d)
                  then 1 else 0)))
      | _ \<Rightarrow> None)"

text \<open>
  Modelled from the spec: \<^verbatim>\<open>isAgeInRange\<close> of utils/formUtils, which is not among the
  sources. The spec asks for an age within the two bounds, both included; no comparison
  with \<^verbatim>\<open>NaN\<close> holds.
\<close>

definition isAgeInRange :: "date \<Rightarrow> ageRangeCheck" where
  "isAgeInRange today v minAge maxAge =
     (case calculateAge today v of None \<Rightarrow> False | Some age \<Rightarrow> minAge \<le> age \<and> age \<le> maxAge)"

section \<open>Word count\<close>

text \<open>
  The characters matched by \<^verbatim>\<open>\s\<close> and stripped by \<^verbatim>\<open>trim\<close>. A character
  of a string is a code point below 256 here, and the whitespace among those is: tab,
  line feed, vertical tab, form feed, carriage return (codes 9 to 13), space (32) and
  the no-break space U+00A0 (160). The other characters of the JavaScript whitespace
  class (U+1680, U+2000 to U+200A, U+2028, U+2029, U+202F, U+205F, U+3000, U+FEFF) lie
  above 255 and have no character here.
\<close>

definition isWhitespace :: "char \<Rightarrow> bool" where
  "isWhitespace c =
     (let n = (of_char c :: nat) in n = 32 \<or> (9 \<le> n \<and> n \<le> 13) \<or> n = 160)"

definition trim :: "string \<Rightarrow> string" where
  "trim s = rev (dropWhile isWhitespace (rev (dropWhile isWhitespace s)))"

text \<open>
  \<^verbatim>\<open>s.split(/\s+/)\<close>: the pieces between maximal runs of whitespace, an empty piece
  included when the string starts or ends with whitespace, and one empty piece for the
  empty string.
\<close>

function splitWhitespace :: "string \<Rightarrow> string list" where
  "splitWhitespace s =
     (let piece = takeWhile (\<lambda>c. \<not> isWhitespace c) s;
          rest = dropWhile (\<lambda>c. \<not> isWhitespace c) s
      in if rest = [] then [piece]
         else piece # splitWhitespace (dropWhile isWhitespace (tl rest)))"
  by pat_completeness auto
termination
proof (relation "measure length")
  show "wf (measure length)" by simp
next
  fix s :: string and piece rest
  assume r: "rest = dropWhile (\<lambda>c. \<not> isWhitespace c) s" and ne: "rest \<noteq> []"
  have "length (dropWhile isWhitespace (tl rest)) \<le> length (tl rest)"
    by (rule length_dropWhile_le)
  also have "\<dots> < length rest" using ne by (cases rest) simp_all
  also have "\<dots> \<le> length s" unfolding r by (rule length_dropWhile_le)
  finally show "(dropWhile isWhitespace (tl rest), s) \<in> measure length" by simp
qed

declare splitWhitespace.simps [simp del]

text \<open>
  The counter written inline in DirectorApplicationForm (source lines 2086, 2132, 2153):
  \<^verbatim>\<open>value ? value.trim().split(/\s+/).filter(Boolean).length : 0\<close>.
\<close>

definition inlineWordCount :: "string \<Rightarrow> nat" where
  "inlineWordCount v =
     (if v \<noteq> [] then length (filter (\<lambda>w. w \<noteq> []) (splitWhitespace (trim v))) else 0)"

text \<open>
  The word count in the spec's words: the number of maximal sequences of characters
  that are not whitespace. \<open>countFrom inWord\<close> counts the sequences that start in
  the rest of the string, \<open>inWord\<close> telling whether the character before was part of
  a word. (The component's own \<^verbatim>\<open>countWords\<close> is imported from utils/formUtils.)
\<close>

fun countFrom :: "bool \<Rightarrow> string \<Rightarrow> nat" where
  "countFrom inWord [] = 0"
| "countFrom inWord (c # cs) =
     (if isWhitespace c then countFrom False cs
      else (if inWord then 0 else 1) + countFrom True cs)"

definition countWordRuns :: "string \<Rightarrow> nat" where
  "countWordRuns s = countFrom False s"

section \<open>Notions used to state the properties\<close>

text \<open>
  The errors a click on Next is to display: the section validator's, and on the
  eligibility section the age error when a date of birth is present and out of range.
\<close>

definition checkedErrors ::
  "validator \<Rightarrow> ageRangeCheck \<Rightarrow> ApplicationFormData \<Rightarrow> string \<Rightarrow> FormError list" where
  "checkedErrors v r fd s =
     v fd s @
     (case fd ''dateOfBirth'' of
        None \<Rightarrow> []
      | Some dob \<Rightarrow>
          if s = ''eligibility'' \<and> truthy (Some dob) \<and> \<not> r dob 18 35
          then [ageRangeError] else [])"

definition photoSlots :: "string list" where
  "photoSlots =
     [''headShot1'', ''headShot2'', ''bodyShot1'', ''bodyShot2'',
      ''additionalImage1'', ''additionalImage2'']"

text \<open>
  The properties that the page's inputs edit: the text inputs call
  \<^verbatim>\<open>handleFieldChange\<close>, the five eligibility checkboxes call
  \<^verbatim>\<open>handleCheckboxChange\<close>, the six file inputs call \<^verbatim>\<open>handleFileChange\<close>.
  No input edits \<^verbatim>\<open>fullName\<close> or \<^verbatim>\<open>age\<close>.
\<close>

definition textInputs :: "string list" where
  "textInputs =
     [''dateOfBirth'', ''firstName'', ''middleName'', ''lastName'', ''email'', ''phone'',
      ''homePhone'', ''street'', ''addressLine2'', ''city'', ''stateRegion'', ''zipCode'',
      ''country'', ''ethnicity'', ''representCountry'', ''alternateCountry'', ''height'',
      ''weight'', ''bust'', ''waist'', ''hips'', ''dressSize'', ''shoeSize'',
      ''swimsuitSizeTop'', ''swimsuitSizeBottom'', ''schoolAttended'', ''fieldOfStudy'',
      ''highestEducation'', ''experience'', ''education'', ''skills'', ''threeWords'',
      ''hobbies'', ''pageantExperience'', ''motivation'', ''goals'', ''charity'',
      ''hearAboutUs'', ''strategy'', ''bio'', ''socialMedia'', ''countryOverview'',
      ''culturalInfo'']"

definition checkboxes :: "string list" where
  "checkboxes =
     [''isEligible'', ''hasValidPassport'', ''canTravel'', ''isGoodHealth'',
      ''willFollowRules'']"

fun pageEvent :: "event \<Rightarrow> bool" where
  "pageEvent (ChangeField fld x) = (fld \<in> set textInputs)"
| "pageEvent (ChangeCheckbox fld b) = (fld \<in> set checkboxes)"
| "pageEvent (ChangeFile fld files) = (fld \<in> set photoSlots)"
| "pageEvent ev = True"

text \<open>The state after a sequence of events, each followed by its render.\<close>

fun run ::
  "validator \<Rightarrow> ageCalculator \<Rightarrow> ageRangeCheck \<Rightarrow> event list \<Rightarrow> ApplicationFormState
     \<Rightarrow> ApplicationFormState" where
  "run v c r [] st = st"
| "run v c r (ev # evs) st = run v c r evs (dispatch v c r ev st)"

definition nameFields :: "string list" where
  "nameFields = [''firstName'', ''middleName'', ''lastName'']"

text \<open>
  The full name of a record is up to date: the three parts are strings and
  \<^verbatim>\<open>fullName\<close> is the parts that are not empty, in order, with one space between
  neighbours.
\<close>

definition fullNameOf :: "string \<Rightarrow> string \<Rightarrow> string \<Rightarrow> string" where
  "fullNameOf a b c = join '' '' (filter (\<lambda>p. p \<noteq> []) [a, b, c])"

definition stringAt :: "ApplicationFormData \<Rightarrow> string \<Rightarrow> string option" where
  "stringAt fd k = (case fd k of Some (VStr s) \<Rightarrow> Some s | _ \<Rightarrow> None)"

definition fullNameUpToDate :: "ApplicationFormData \<Rightarrow> bool" where
  "fullNameUpToDate fd =
     (case stringAt fd ''firstName'' of
        None \<Rightarrow> False
      | Some a \<Rightarrow>
          (case stringAt fd ''middleName'' of
             None \<Rightarrow> False
           | Some b \<Rightarrow>
               (case stringAt fd ''lastName'' of
                  None \<Rightarrow> False
                | Some c \<Rightarrow> fd ''fullName'' = Some (VStr (fullNameOf a b c)))))"

definition noLeadingSpace :: "string \<Rightarrow> bool" where
  "noLeadingSpace s = (case s of [] \<Rightarrow> True | c # _ \<Rightarrow> c \<noteq> CHR '' '')"

definition noTrailingSpace :: "string \<Rightarrow> bool" where
  "noTrailingSpace s = noLeadingSpace (rev s)"

fun noDoubleSpace :: "string \<Rightarrow> bool" where
  "noDoubleSpace [] = True"
| "noDoubleSpace [a] = True"
| "noDoubleSpace (a # b # cs) = (\<not> (a = CHR '' '' \<and> b = CHR '' '') \<and> noDoubleSpace (b # cs))"

definition tidy :: "string \<Rightarrow> bool" where
  "tidy s = (noLeadingSpace s \<and> noTrailingSpace s \<and> noDoubleSpace s)"

section \<open>The section order\<close>

lemma sectionIds_eq:
  "sectionIds = [''eligibility'', ''contact'', ''personal'', ''background'', ''motivation'',
     ''business'', ''photos'', ''terms'', ''profile'', ''countryInfo'', ''review'']"
  by (simp add: sectionIds_def formSections_def)

lemma length_sectionIds: "length sectionIds = 11"
  by (simp add: sectionIds_eq)

lemma distinct_sectionIds: "distinct sectionIds"
  by (simp add: sectionIds_eq)

lemma findIndex_distinct:
  "distinct (map f xs) \<Longrightarrow> i < length xs \<Longrightarrow> findIndex (\<lambda>x. f x = f (xs ! i)) xs = int i"
proof (induction xs arbitrary: i)
  case Nil
  then show ?case by simp
next
  case (Cons x xs)
  show ?case
  proof (cases i)
    case 0
    then show ?thesis by simp
  next
    case (Suc j)
    with Cons.prems have j: "j < length xs" and d: "distinct (map f xs)"
      and nx: "f x \<notin> f ` set xs" by auto
    from j have "f (xs ! j) \<in> f ` set xs" by simp
    with nx have "f x \<noteq> f (xs ! j)" by auto
    moreover have "findIndex (\<lambda>x. f x = f (xs ! j)) xs = int j"
      using Cons.IH [OF d j] .
    ultimately show ?thesis using Suc by (simp add: Let_def)
  qed
qed

lemma currentIndex_eq:
  assumes "i < length sectionIds" "currentSection st = sectionIds ! i"
  shows "findIndex (\<lambda>section. sec_id section = currentSection st) formSections = int i"
  using assms findIndex_distinct [of sec_id formSections i] distinct_sectionIds
  by (simp add: sectionIds_def)

lemma sec_id_nth: "i < length sectionIds \<Longrightarrow> sec_id (formSections ! i) = sectionIds ! i"
  by (simp add: sectionIds_def)

section \<open>Advancing\<close>

text \<open>
  Claim C3. On a section that is not the last one, Next displays the errors of the
  section validator (with the age error added on the eligibility section). When there
  are none the active section becomes the next one of the section order and the
  displayed list is empty; otherwise the section stays and the list is displayed.
  Nothing else of the state changes.
\<close>

theorem handleNext_advances_or_stays:
  assumes "i < length sectionIds - 1" and "currentSection st = sectionIds ! i"
  shows "handleNext v r st =
     (let errs = checkedErrors v r (formData st) (sectionIds ! i)
      in if errs = [] then st\<lparr>errors := [], currentSection := sectionIds ! (i + 1)\<rparr>
         else st\<lparr>errors := errs\<rparr>)"
proof -
  have i: "i < length sectionIds" and i1: "i + 1 < length sectionIds"
    using assms(1) by simp_all
  have idx: "findIndex (\<lambda>section. sec_id section = currentSection st) formSections = int i"
    using currentIndex_eq [OF i assms(2)] .
  have lt: "int i < int (length formSections) - 1"
    using assms(1) by (simp add: sectionIds_def)
  have nxt: "sec_id (formSections ! nat (int i + 1)) = sectionIds ! (i + 1)"
    using sec_id_nth [OF i1] by (simp add: nat_add_distrib)
  show ?thesis
    unfolding handleNext_def checkedErrors_def Let_def idx
    using lt nxt assms(2)
    by (auto split: option.splits)
qed

theorem handleNext_advances_or_stays_witness:
  "(1::nat) < length sectionIds - 1
   \<and> currentSection (initialState\<lparr>currentSection := ''contact''\<rparr>) = sectionIds ! 1
   \<and> handleNext (\<lambda>fd s. if s = ''contact'' \<and> \<not> truthy (fd ''email'')
          then [\<lparr>field = ''email'', message = ''Email is required''\<rparr>] else [])
        (\<lambda>dob lo hi. True) (initialState\<lparr>currentSection := ''contact''\<rparr>)
     = initialState\<lparr>currentSection := ''contact'',
         errors := [\<lparr>field = ''email'', message = ''Email is required''\<rparr>]\<rparr>
   \<and> handleNext (\<lambda>fd s. if s = ''contact'' \<and> \<not> truthy (fd ''email'')
          then [\<lparr>field = ''email'', message = ''Email is required''\<rparr>] else [])
        (\<lambda>dob lo hi. True)
        (initialState\<lparr>currentSection := ''contact'',
           formData := initialFormData(''email'' \<mapsto> VStr ''a@b.c'')\<rparr>)
     = initialState\<lparr>currentSection := ''personal'',
         formData := initialFormData(''email'' \<mapsto> VStr ''a@b.c'')\<rparr>"
proof -
  let ?v = "\<lambda>(fd :: ApplicationFormData) s. if s = ''contact'' \<and> \<not> truthy (fd ''email'')
          then [\<lparr>field = ''email'', message = ''Email is required''\<rparr>] else []"
  let ?r = "\<lambda>(dob :: jsval) (lo :: int) (hi :: int). True"
  have h1: "(1::nat) < length sectionIds - 1" by (simp add: sectionIds_eq)
  have h2: "currentSection (initialState\<lparr>currentSection := ''contact''\<rparr>) = sectionIds ! 1"
    by (simp add: sectionIds_eq)
  have h3: "currentSection (initialState\<lparr>currentSection := ''contact'',
           formData := initialFormData(''email'' \<mapsto> VStr ''a@b.c'')\<rparr>) = sectionIds ! 1"
    by (simp add: sectionIds_eq)
  show ?thesis
    using h1 h2 handleNext_advances_or_stays [OF h1 h2, of ?v ?r]
      handleNext_advances_or_stays [OF h1 h3, of ?v ?r]
    by (simp add: checkedErrors_def initialState_def initialFormData_def sectionIds_eq)
qed

section \<open>The age check\<close>

lemma parseDate_empty: "parseDate [] = None"
  by (simp add: parseDate_def)

text \<open>
  Claim C7. With a date of birth whose age is defined, Next displays the section
  validator's errors and, on the eligibility section only, adds the age error exactly
  when the age is below 18 or above 35; 18 and 35 themselves pass. The error is keyed
  to the date of birth and its message names both bounds. Submit displays the combined
  list of the section validators and the terms rule, to which no age check is added.
\<close>

theorem age_check_on_eligibility_only:
  assumes "formData st ''dateOfBirth'' = Some (VStr dob)"
    and "calculateAge today (VStr dob) = Some age"
  shows "errors (handleNext v (isAgeInRange today) st) =
       v (formData st) (currentSection st) @
       (if currentSection st = ''eligibility'' \<and> \<not> (18 \<le> age \<and> age \<le> 35)
        then [ageRangeError] else [])
     \<and> field ageRangeError = ''dateOfBirth''
     \<and> message ageRangeError = ''You must be between 18 and 35 years old to participate''
     \<and> errors (handleSubmit v st) = collectErrors v st"
proof -
  have "dob \<noteq> []" using assms(2) by (auto simp: calculateAge_def parseDate_empty)
  then have t: "truthy (Some (VStr dob))" by simp
  have r: "isAgeInRange today (VStr dob) 18 35 \<longleftrightarrow> 18 \<le> age \<and> age \<le> 35"
    using assms(2) by (simp add: isAgeInRange_def)
  have 1: "errors (handleNext v (isAgeInRange today) st) =
       v (formData st) (currentSection st) @
       (if currentSection st = ''eligibility'' \<and> \<not> (18 \<le> age \<and> age \<le> 35)
        then [ageRangeError] else [])"
    unfolding handleNext_def Let_def assms(1) option.case r
    using t by (simp split: if_splits)
  have 2: "errors (handleSubmit v st) = collectErrors v st"
    by (simp add: handleSubmit_def Let_def split: option.splits)
  show ?thesis using 1 2 by (simp add: ageRangeError_def)
qed

theorem age_check_on_eligibility_only_witness:
  "formData (initialState\<lparr>formData := initialFormData(''dateOfBirth'' \<mapsto> VStr ''2006-06-15'')\<rparr>)
      ''dateOfBirth'' = Some (VStr ''2006-06-15'')
   \<and> calculateAge \<lparr>year = 2024, month = 6, day = 15\<rparr> (VStr ''2006-06-15'') = Some 18
   \<and> errors (handleNext (\<lambda>fd s. []) (isAgeInRange \<lparr>year = 2024, month = 6, day = 15\<rparr>)
        (initialState\<lparr>formData := initialFormData(''dateOfBirth'' \<mapsto> VStr ''2006-06-15'')\<rparr>)) = []
   \<and> calculateAge \<lparr>year = 2024, month = 6, day = 15\<rparr> (VStr ''2006-06-16'') = Some 17
   \<and> errors (handleNext (\<lambda>fd s. []) (isAgeInRange \<lparr>year = 2024, month = 6, day = 15\<rparr>)
        (initialState\<lparr>formData := initialFormData(''dateOfBirth'' \<mapsto> VStr ''2006-06-16'')\<rparr>))
      = [ageRangeError]
   \<and> calculateAge \<lparr>year = 2024, month = 6, day = 15\<rparr> (VStr ''1988-06-16'') = Some 35
   \<and> errors (handleNext (\<lambda>fd s. []) (isAgeInRange \<lparr>year = 2024, month = 6, day = 15\<rparr>)
        (initialState\<lparr>formData := initialFormData(''dateOfBirth'' \<mapsto> VStr ''1988-06-16'')\<rparr>)) = []
   \<and> calculateAge \<lparr>year = 2024, month = 6, day = 15\<rparr> (VStr ''1988-06-15'') = Some 36
   \<and> errors (handleNext (\<lambda>fd s. []) (isAgeInRange \<lparr>year = 2024, month = 6, day = 15\<rparr>)
        (initialState\<lparr>formData := initialFormData(''dateOfBirth'' \<mapsto> VStr ''1988-06-15'')\<rparr>))
      = [ageRangeError]
   \<and> errors (handleNext (\<lambda>fd s. []) (isAgeInRange \<lparr>year = 2024, month = 6, day = 15\<rparr>)
        (initialState\<lparr>currentSection := ''profile'',
           formData := initialFormData(''dateOfBirth'' \<mapsto> VStr ''1988-06-15'')\<rparr>)) = []"
proof -
  let ?today = "\<lparr>year = 2024, month = 6, day = 15\<rparr>"
  let ?v = "\<lambda>(fd :: ApplicationFormData) (s :: string). [] :: FormError list"
  let ?st = "\<lambda>x. initialState\<lparr>formData := initialFormData(''dateOfBirth'' \<mapsto> VStr x)\<rparr>"
  have d: "formData (?st x) ''dateOfBirth'' = Some (VStr x)" for x by simp
  have d': "formData (initialState\<lparr>currentSection := ''profile'',
           formData := initialFormData(''dateOfBirth'' \<mapsto> VStr x)\<rparr>) ''dateOfBirth'' = Some (VStr x)" for x
    by simp
  have c: "calculateAge ?today (VStr ''2006-06-15'') = Some 18"
    "calculateAge ?today (VStr ''2006-06-16'') = Some 17"
    "calculateAge ?today (VStr ''1988-06-16'') = Some 35"
    "calculateAge ?today (VStr ''1988-06-15'') = Some 36"
    by (simp_all add: calculateAge_def parseDate_def digitVal_def)
  note t1 = conjunct1 [OF age_check_on_eligibility_only [OF d c(1), of ?v]]
  note t2 = conjunct1 [OF age_check_on_eligibility_only [OF d c(2), of ?v]]
  note t3 = conjunct1 [OF age_check_on_eligibility_only [OF d c(3), of ?v]]
  note t4 = conjunct1 [OF age_check_on_eligibility_only [OF d c(4), of ?v]]
  note t5 = conjunct1 [OF age_check_on_eligibility_only [OF d' c(4), of ?v]]
  have e: "currentSection initialState = ''eligibility''" by (simp add: initialState_def)
  show ?thesis
    using t1 t2 t3 t4 t5 by (simp add: c e)
qed

section \<open>Retreating\<close>

lemma handlePrevious_eq:
  assumes "0 < i" and "i < length sectionIds" and "currentSection st = sectionIds ! i"
  shows "handlePrevious st = st\<lparr>currentSection := sectionIds ! (i - 1)\<rparr>"
proof -
  have idx: "findIndex (\<lambda>section. sec_id section = currentSection st) formSections = int i"
    using currentIndex_eq [OF assms(2,3)] .
  have "i - 1 < length sectionIds" using assms(2) by simp
  then have prv: "sec_id (formSections ! nat (int i - 1)) = sectionIds ! (i - 1)"
    using sec_id_nth [of "i - 1"] assms(1) by (simp add: nat_diff_distrib')
  show ?thesis
    unfolding handlePrevious_def Let_def idx using assms(1) prv by simp
qed

text \<open>
  Claim C4, as the handler has it. From a section that is not the first, Previous moves
  the active section one step back and changes nothing else: no validator is called,
  the record is the same, and the displayed error list is the one that was displayed
  before (it is kept, not emptied).
\<close>

theorem handlePrevious_moves_back:
  assumes "0 < i" and "i < length sectionIds" and "currentSection st = sectionIds ! i"
  shows "handlePrevious st = st\<lparr>currentSection := sectionIds ! (i - 1)\<rparr>
     \<and> errors (handlePrevious st) = errors st
     \<and> formData (handlePrevious st) = formData st"
proof -
  have moved: "handlePrevious st = st\<lparr>currentSection := sectionIds ! (i - 1)\<rparr>"
    using assms by (rule handlePrevious_eq)
  have "errors (st\<lparr>currentSection := sectionIds ! (i - 1)\<rparr>) = errors st"
    and "formData (st\<lparr>currentSection := sectionIds ! (i - 1)\<rparr>) = formData st"
    by simp_all
  with moved show ?thesis by simp
qed

theorem handlePrevious_moves_back_witness:
  "(0::nat) < 1 \<and> (1::nat) < length sectionIds
   \<and> currentSection (initialState\<lparr>currentSection := ''contact'',
        errors := [\<lparr>field = ''email'', message = ''Email is required''\<rparr>]\<rparr>) = sectionIds ! 1
   \<and> handlePrevious (initialState\<lparr>currentSection := ''contact'',
        errors := [\<lparr>field = ''email'', message = ''Email is required''\<rparr>]\<rparr>)
      = initialState\<lparr>currentSection := ''eligibility'',
        errors := [\<lparr>field = ''email'', message = ''Email is required''\<rparr>]\<rparr>"
proof -
  let ?st = "initialState\<lparr>currentSection := ''contact'',
        errors := [\<lparr>field = ''email'', message = ''Email is required''\<rparr>]\<rparr>"
  have h1: "(0::nat) < 1" by simp
  have h2: "(1::nat) < length sectionIds" by (simp add: sectionIds_eq)
  have h3: "currentSection ?st = sectionIds ! 1" by (simp add: sectionIds_eq)
  show ?thesis
    using h2 h3 handlePrevious_moves_back [OF h1 h2 h3]
    by (simp add: sectionIds_eq)
qed

text \<open>
  The claim as written has the displayed errors emptied. With a validator that asks
  for the email on the contact section: Next from eligibility, Next on contact (which
  displays the email error and stays), then Previous. The active section is eligibility
  again and the email error is still the displayed list.
\<close>

theorem handlePrevious_keeps_errors_counterexample:
  "errors (run (\<lambda>fd s. if s = ''contact'' \<and> \<not> truthy (fd ''email'')
                  then [\<lparr>field = ''email'', message = ''Email is required''\<rparr>] else [])
             (\<lambda>d. None) (\<lambda>d lo hi. True)
             [ClickNext, ClickNext, ClickPrevious] initialState)
     = [\<lparr>field = ''email'', message = ''Email is required''\<rparr>]
   \<and> currentSection (run (\<lambda>fd s. if s = ''contact'' \<and> \<not> truthy (fd ''email'')
                  then [\<lparr>field = ''email'', message = ''Email is required''\<rparr>] else [])
             (\<lambda>d. None) (\<lambda>d lo hi. True)
             [ClickNext, ClickNext, ClickPrevious] initialState) = ''eligibility''"
  by (simp add: dispatch_def commit_def handleNext_def handlePrevious_def formSections_def
      Let_def initialState_def initialFormData_def)

section \<open>Jumping to a section\<close>

lemma navButtonClick_forward_rejected:
  assumes "i < length sectionIds" and "currentSection st = sectionIds ! i" and "i < j"
  shows "navButtonClick j st = st"
  unfolding navButtonClick_def Let_def currentIndex_eq [OF assms(1,2)]
  using assms(3) by simp

text \<open>
  Claim C2. The buttons of the navigation bar reject a section that lies ahead
  (\<open>navButtonClick_forward_rejected\<close>). The select element does not: from the first
  section, choosing the last one makes it the active section, while the button of the
  same section leaves the state as it is.
\<close>

theorem mobileSelectChange_jumps_forward:
  "findIndex (\<lambda>s. sec_id s = currentSection initialState) formSections = 0
   \<and> findIndex (\<lambda>s. sec_id s = ''review'') formSections = 10
   \<and> handle v r (SelectSection ''review'') initialState
       = initialState\<lparr>currentSection := ''review''\<rparr>
   \<and> handle v r (ClickNavButton 10) initialState = initialState"
  by (simp add: initialState_def formSections_def sectionIds_def mobileSelectChange_def
      navButtonClick_def Let_def)

section \<open>Photo slots\<close>

lemma commit_ChangeFile:
  assumes "fld \<in> set photoSlots"
  shows "commit c st (handleFileChange fld files st) = handleFileChange fld files st"
  using assms
  by (auto simp: commit_def handleFileChange_def photoSlots_def Let_def
      split: option.splits list.splits)

text \<open>
  Claim C10. For a photo slot, a file event without files (the list is null or empty)
  leaves the whole state as it was, so a photo chosen earlier stays; an event with
  files stores the first file in the slot and leaves every other property of the record,
  and the rest of the state, unchanged.
\<close>

theorem handleFileChange_frame:
  assumes "fld \<in> set photoSlots"
  shows "((files = None \<or> files = Some []) \<longrightarrow> dispatch v c r (ChangeFile fld files) st = st)
     \<and> (\<forall>f fs. files = Some (f # fs) \<longrightarrow>
          dispatch v c r (ChangeFile fld files) st = st\<lparr>formData := (formData st)(fld \<mapsto> VFile f)\<rparr>
          \<and> formData (dispatch v c r (ChangeFile fld files) st) fld = Some (VFile f)
          \<and> (\<forall>k. k \<noteq> fld \<longrightarrow>
                formData (dispatch v c r (ChangeFile fld files) st) k = formData st k))"
  unfolding dispatch_def handle.simps commit_ChangeFile [OF assms]
  by (auto simp: handleFileChange_def)

theorem handleFileChange_frame_witness:
  "''headShot1'' \<in> set photoSlots
   \<and> dispatch (\<lambda>fd s. []) (\<lambda>d. None) (\<lambda>d lo hi. True) (ChangeFile ''headShot1'' None)
        (initialState\<lparr>formData := initialFormData(''headShot1'' \<mapsto> VFile (File ''old.png''))\<rparr>)
      = initialState\<lparr>formData := initialFormData(''headShot1'' \<mapsto> VFile (File ''old.png''))\<rparr>
   \<and> dispatch (\<lambda>fd s. []) (\<lambda>d. None) (\<lambda>d lo hi. True) (ChangeFile ''headShot1'' (Some []))
        (initialState\<lparr>formData := initialFormData(''headShot1'' \<mapsto> VFile (File ''old.png''))\<rparr>)
      = initialState\<lparr>formData := initialFormData(''headShot1'' \<mapsto> VFile (File ''old.png''))\<rparr>
   \<and> formData (dispatch (\<lambda>fd s. []) (\<lambda>d. None) (\<lambda>d lo hi. True)
        (ChangeFile ''headShot1'' (Some [File ''new.png'', File ''other.png'']))
        (initialState\<lparr>formData := initialFormData(''headShot1'' \<mapsto> VFile (File ''old.png''))\<rparr>))
        ''headShot1'' = Some (VFile (File ''new.png''))
   \<and> formData (dispatch (\<lambda>fd s. []) (\<lambda>d. None) (\<lambda>d lo hi. True)
        (ChangeFile ''headShot1'' (Some [File ''new.png'', File ''other.png'']))
        (initialState\<lparr>formData := initialFormData(''headShot1'' \<mapsto> VFile (File ''old.png''))\<rparr>))
        ''headShot2'' = initialFormData ''headShot2''"
proof -
  let ?st = "initialState\<lparr>formData := initialFormData(''headShot1'' \<mapsto> VFile (File ''old.png''))\<rparr>"
  let ?v = "\<lambda>(fd :: ApplicationFormData) (s :: string). [] :: FormError list"
  let ?c = "\<lambda>d :: jsval. None :: int option"
  let ?r = "\<lambda>(d :: jsval) (lo :: int) (hi :: int). True"
  have h: "''headShot1'' \<in> set photoSlots" by (simp add: photoSlots_def)
  note t = handleFileChange_frame [OF h, of _ ?v ?c ?r ?st]
  have a: "dispatch ?v ?c ?r (ChangeFile ''headShot1'' None) ?st = ?st"
    using t [of None] by simp
  have b: "dispatch ?v ?c ?r (ChangeFile ''headShot1'' (Some [])) ?st = ?st"
    using t [of "Some []"] by simp
  have c: "formData (dispatch ?v ?c ?r
        (ChangeFile ''headShot1'' (Some [File ''new.png'', File ''other.png''])) ?st) ''headShot1''
       = Some (VFile (File ''new.png''))"
    using t [of "Some [File ''new.png'', File ''other.png'']"] by simp
  have d: "formData (dispatch ?v ?c ?r
        (ChangeFile ''headShot1'' (Some [File ''new.png'', File ''other.png''])) ?st) ''headShot2''
       = initialFormData ''headShot2''"
    using t [of "Some [File ''new.png'', File ''other.png'']"] by simp
  show ?thesis using h a b c d by simp
qed

section \<open>Submitting\<close>

lemma collectErrors_eq:
  "collectErrors v st =
     v (formData st) ''eligibility'' @ v (formData st) ''contact'' @ v (formData st) ''personal''
     @ v (formData st) ''background'' @ v (formData st) ''motivation''
     @ v (formData st) ''business'' @ v (formData st) ''photos'' @ v (formData st) ''profile''
     @ v (formData st) ''countryInfo'' @ (if agreeTerms st then [] else [termsError])"
  by (simp add: collectErrors_def formSections_def)

lemma collectErrors_concat:
  "collectErrors v st =
     concat (map (v (formData st)) (filter (\<lambda>s. s \<noteq> ''review'' \<and> s \<noteq> ''terms'') sectionIds))
     @ (if agreeTerms st then [] else [termsError])"
  by (simp add: collectErrors_eq sectionIds_eq)

lemma section_errors_collected:
  assumes "s \<in> set sectionIds" "s \<noteq> ''review''" "s \<noteq> ''terms''"
  shows "set (v (formData st) s) \<subseteq> set (collectErrors v st)"
  using assms unfolding collectErrors_concat by auto

lemma find_first:
  assumes "i < length xs" "P (xs ! i)" "\<forall>j<i. \<not> P (xs ! j)"
  shows "find P xs = Some (xs ! i)"
  using assms by (auto simp: find_Some_iff)

lemma handleSubmit_first_failing:
  assumes cur: "currentSection st = ''review''"
    and i: "i < length sectionIds" "sectionIds ! i \<noteq> ''review''" "sectionIds ! i \<noteq> ''terms''"
    and fails: "v (formData st) (sectionIds ! i) \<noteq> []"
    and before: "\<forall>j<i. v (formData st) (sectionIds ! j) = []"
  shows "handleSubmit v st =
      st\<lparr>errors := collectErrors v st, currentSection := sectionIds ! i,
         effects := effects st @ [submitErrorToast]\<rparr>"
proof -
  let ?P = "\<lambda>section. list_ex (\<lambda>error. list_ex (\<lambda>e. field e = field error)
                (v (formData st) (sec_id section))) (collectErrors v st)"
  have len: "i < length formSections" using i(1) by (simp add: sectionIds_def)
  have sid: "sec_id (formSections ! i) = sectionIds ! i" using sec_id_nth [OF i(1)] .
  obtain e where e: "e \<in> set (v (formData st) (sectionIds ! i))"
    using fails by (cases "v (formData st) (sectionIds ! i)") auto
  have "sectionIds ! i \<in> set sectionIds" using i(1) by simp
  then have "e \<in> set (collectErrors v st)"
    using section_errors_collected [of "sectionIds ! i" v st] i(2,3) e by blast
  then have Pi: "?P (formSections ! i)"
    using e unfolding sid list_ex_iff by blast
  have Pj: "\<forall>j<i. \<not> ?P (formSections ! j)"
  proof (intro allI impI)
    fix j assume j: "j < i"
    then have "j < length sectionIds" using i(1) by simp
    then have "sec_id (formSections ! j) = sectionIds ! j" by (rule sec_id_nth)
    then show "\<not> ?P (formSections ! j)" using before j by (simp add: list_ex_iff)
  qed
  have f: "find ?P formSections = Some (formSections ! i)"
    using find_first [OF len Pi Pj] .
  have ne: "collectErrors v st \<noteq> []"
    using \<open>e \<in> set (collectErrors v st)\<close> by auto
  show ?thesis
    unfolding handleSubmit_def Let_def f using ne sid cur i(2) by simp
qed

text \<open>
  Claim C1. The combined list is the sections' errors in section order, then the terms
  error (\<open>collectErrors_concat\<close>), and when a section fails its validation the
  handler displays the list, moves to the first failing section and shows one error
  toast (\<open>handleSubmit_first_failing\<close>). When the terms error is the only one, the
  handler displays it and does nothing else: on the review section, with a record that
  passes the validation of every section and the terms not agreed to, Submit leaves the
  active section at review and adds nothing to the effect log, so no toast is shown.
\<close>

theorem handleSubmit_terms_only:
  assumes "currentSection st = ''review''"
    and "\<forall>s \<in> set sectionIds. v (formData st) s = []"
    and "\<not> agreeTerms st"
  shows "handleSubmit v st = st\<lparr>errors := [termsError]\<rparr>
     \<and> currentSection (handleSubmit v st) = ''review''
     \<and> effects (handleSubmit v st) = effects st"
proof -
  have c: "collectErrors v st = [termsError]"
    using assms(2,3) by (simp add: collectErrors_eq sectionIds_eq)
  have "find (\<lambda>section. list_ex (\<lambda>error. list_ex (\<lambda>e. field e = field error)
                (v (formData st) (sec_id section))) [termsError]) formSections = None"
    using assms(2) by (simp add: find_None_iff sectionIds_def)
  then have "handleSubmit v st = st\<lparr>errors := [termsError]\<rparr>"
    unfolding handleSubmit_def Let_def c by simp
  then show ?thesis using assms(1) by simp
qed

theorem handleSubmit_terms_only_witness:
  "currentSection (initialState\<lparr>currentSection := ''review''\<rparr>) = ''review''
   \<and> \<not> agreeTerms (initialState\<lparr>currentSection := ''review''\<rparr>)
   \<and> handle (\<lambda>fd s. []) (\<lambda>d lo hi. True) ClickSubmit (initialState\<lparr>currentSection := ''review''\<rparr>)
     = initialState\<lparr>currentSection := ''review'', errors := [termsError]\<rparr>
   \<and> effects (handle (\<lambda>fd s. []) (\<lambda>d lo hi. True) ClickSubmit
        (initialState\<lparr>currentSection := ''review''\<rparr>)) = []"
proof -
  let ?st = "initialState\<lparr>currentSection := ''review''\<rparr>"
  have h1: "currentSection ?st = ''review''" by simp
  have h2: "\<forall>s \<in> set sectionIds. (\<lambda>(fd :: ApplicationFormData) (s :: string). [] :: FormError list)
      (formData ?st) s = []" by simp
  have h3: "\<not> agreeTerms ?st" by (simp add: initialState_def)
  from handleSubmit_terms_only [OF h1 h2 h3]
  have "handleSubmit (\<lambda>fd s. []) ?st = ?st\<lparr>errors := [termsError]\<rparr>" by (rule conjunct1)
  then show ?thesis using h3 by (simp add: initialState_def)
qed

text \<open>
  The example of the spec: email missing on contact, strategy missing on business.
  Both errors are displayed and the active section becomes contact.
\<close>

lemma handleSubmit_contact_before_business:
  "handleSubmit
     (\<lambda>fd s. if s = ''contact'' \<and> \<not> truthy (fd ''email'')
              then [\<lparr>field = ''email'', message = ''Email is required''\<rparr>]
              else if s = ''business'' \<and> \<not> truthy (fd ''strategy'')
              then [\<lparr>field = ''strategy'', message = ''Strategy is required''\<rparr>] else [])
     (initialState\<lparr>currentSection := ''review'', agreeTerms := True\<rparr>)
   = initialState\<lparr>currentSection := ''contact'', agreeTerms := True,
       errors := [\<lparr>field = ''email'', message = ''Email is required''\<rparr>,
                  \<lparr>field = ''strategy'', message = ''Strategy is required''\<rparr>],
       effects := [submitErrorToast]\<rparr>"
proof -
  let ?v = "\<lambda>(fd :: ApplicationFormData) s. if s = ''contact'' \<and> \<not> truthy (fd ''email'')
              then [\<lparr>field = ''email'', message = ''Email is required''\<rparr>]
              else if s = ''business'' \<and> \<not> truthy (fd ''strategy'')
              then [\<lparr>field = ''strategy'', message = ''Strategy is required''\<rparr>] else []"
  let ?st = "initialState\<lparr>currentSection := ''review'', agreeTerms := True\<rparr>"
  have "handleSubmit ?v ?st = ?st\<lparr>errors := collectErrors ?v ?st, currentSection := sectionIds ! 1,
         effects := effects ?st @ [submitErrorToast]\<rparr>"
    by (rule handleSubmit_first_failing)
      (simp_all add: sectionIds_eq initialState_def initialFormData_def)
  then show ?thesis
    by (simp add: collectErrors_eq sectionIds_eq initialState_def initialFormData_def)
qed

section \<open>While a submission is pending\<close>

lemma commit_same: "commit c st st = st"
  by (simp add: commit_def)

lemma commit_section_only:
  assumes "s \<noteq> currentSection st"
  shows "commit c st (st\<lparr>currentSection := s\<rparr>) = st\<lparr>currentSection := s, effects := effects st @ [ScrollToTop]\<rparr>"
  using assms by (simp add: commit_def)

lemma sectionIds_nth_neq:
  assumes "0 < i" "i < length sectionIds"
  shows "sectionIds ! (i - 1) \<noteq> sectionIds ! i" and "sectionIds ! i \<noteq> ''eligibility''"
proof -
  have "i - 1 < length sectionIds" "i - 1 \<noteq> i" using assms by simp_all
  then show "sectionIds ! (i - 1) \<noteq> sectionIds ! i"
    using distinct_sectionIds assms(2) by (simp add: nth_eq_iff_index_eq)
  have "sectionIds ! 0 = ''eligibility''" by (simp add: sectionIds_eq)
  moreover have "sectionIds ! i \<noteq> sectionIds ! 0"
    using nth_eq_iff_index_eq [OF distinct_sectionIds, of i 0] assms
    by (simp add: length_sectionIds)
  ultimately show "sectionIds ! i \<noteq> ''eligibility''" by simp
qed

text \<open>
  Claim C8, as the page has it. While a submission is pending the Submit button is
  disabled, so a click on it changes nothing. Previous has no such guard: from a
  section that is not the first it still moves the active section one step back (and
  the scroll position is reset), the submission staying pending.
\<close>

theorem submitting_blocks_submit_only:
  assumes "isSubmitting st"
  shows "dispatch v c r ClickSubmit st = st
     \<and> (\<forall>i. 0 < i \<and> i < length sectionIds \<and> currentSection st = sectionIds ! i \<longrightarrow>
          dispatch v c r ClickPrevious st =
            st\<lparr>currentSection := sectionIds ! (i - 1), effects := effects st @ [ScrollToTop]\<rparr>)"
proof (intro conjI allI impI)
  show "dispatch v c r ClickSubmit st = st"
    using assms by (simp add: dispatch_def commit_same)
next
  fix i
  assume a: "0 < i \<and> i < length sectionIds \<and> currentSection st = sectionIds ! i"
  then have p: "handlePrevious st = st\<lparr>currentSection := sectionIds ! (i - 1)\<rparr>"
    using handlePrevious_eq [of i st] by simp
  have n: "sectionIds ! (i - 1) \<noteq> currentSection st" "currentSection st \<noteq> ''eligibility''"
    using a sectionIds_nth_neq [of i] by simp_all
  show "dispatch v c r ClickPrevious st =
            st\<lparr>currentSection := sectionIds ! (i - 1), effects := effects st @ [ScrollToTop]\<rparr>"
    using n by (simp add: dispatch_def p commit_section_only)
qed

theorem submitting_blocks_submit_only_witness:
  "isSubmitting (initialState\<lparr>currentSection := ''review'', isSubmitting := True\<rparr>)
   \<and> dispatch (\<lambda>fd s. []) (\<lambda>d. None) (\<lambda>d lo hi. True) ClickSubmit
        (initialState\<lparr>currentSection := ''review'', isSubmitting := True\<rparr>)
      = initialState\<lparr>currentSection := ''review'', isSubmitting := True\<rparr>
   \<and> (0::nat) < 10 \<and> 10 < length sectionIds
   \<and> currentSection (initialState\<lparr>currentSection := ''review'', isSubmitting := True\<rparr>)
      = sectionIds ! 10
   \<and> dispatch (\<lambda>fd s. []) (\<lambda>d. None) (\<lambda>d lo hi. True) ClickPrevious
        (initialState\<lparr>currentSection := ''review'', isSubmitting := True\<rparr>)
      = initialState\<lparr>currentSection := ''countryInfo'', isSubmitting := True,
          effects := [ScrollToTop]\<rparr>"
proof -
  let ?st = "initialState\<lparr>currentSection := ''review'', isSubmitting := True\<rparr>"
  have h: "isSubmitting ?st" by simp
  have i: "(0::nat) < 10 \<and> 10 < length sectionIds \<and> currentSection ?st = sectionIds ! 10"
    by (simp add: sectionIds_eq)
  note t = submitting_blocks_submit_only [OF h, of "\<lambda>fd s. []" "\<lambda>d. None" "\<lambda>d lo hi. True"]
  note a = conjunct1 [OF t]
  note b = mp [OF spec [OF conjunct2 [OF t], of 10] i]
  have s9: "sectionIds ! (10 - 1) = ''countryInfo''" by (simp add: sectionIds_eq)
  have "dispatch (\<lambda>fd s. []) (\<lambda>d. None) (\<lambda>d lo hi. True) ClickPrevious ?st
      = initialState\<lparr>currentSection := ''countryInfo'', isSubmitting := True,
          effects := [ScrollToTop]\<rparr>"
    unfolding b s9 by (simp add: initialState_def)
  then show ?thesis using a h i by simp
qed

text \<open>
  The claim as written has Previous ignored while a submission is pending. After a
  successful Submit on the review section the submission is pending, and Previous then
  moves the active section to countryInfo.
\<close>

theorem retreat_while_submitting_counterexample:
  "isSubmitting (dispatch (\<lambda>fd s. []) (\<lambda>d. None) (\<lambda>d lo hi. True) ClickSubmit
       (initialState\<lparr>currentSection := ''review'', agreeTerms := True\<rparr>))
   \<and> currentSection (dispatch (\<lambda>fd s. []) (\<lambda>d. None) (\<lambda>d lo hi. True) ClickSubmit
       (initialState\<lparr>currentSection := ''review'', agreeTerms := True\<rparr>)) = ''review''
   \<and> currentSection (dispatch (\<lambda>fd s. []) (\<lambda>d. None) (\<lambda>d lo hi. True) ClickPrevious
       (dispatch (\<lambda>fd s. []) (\<lambda>d. None) (\<lambda>d lo hi. True) ClickSubmit
         (initialState\<lparr>currentSection := ''review'', agreeTerms := True\<rparr>))) = ''countryInfo''"
  by (simp add: dispatch_def handleSubmit_def collectErrors_def formSections_def commit_def
      handlePrevious_def Let_def initialState_def)

section \<open>The full name\<close>

lemma nameFields_cases:
  "fld \<in> set nameFields \<Longrightarrow> fld = ''firstName'' \<or> fld = ''middleName'' \<or> fld = ''lastName''"
  by (simp add: nameFields_def)

lemma commit_name_edit:
  assumes "fld \<in> set nameFields"
  shows "formData (commit c st (handleFieldChange fld x st)) =
     (if formData st fld = Some (VStr x) then (formData st)(fld \<mapsto> VStr x)
      else fullNameEffect ((formData st)(fld \<mapsto> VStr x)) ((formData st)(fld \<mapsto> VStr x)))"
proof -
  have "fld = ''firstName'' \<or> fld = ''middleName'' \<or> fld = ''lastName''"
    using assms by (rule nameFields_cases)
  then show ?thesis
  proof (elim disjE)
    assume "fld = ''firstName''"
    then show ?thesis by (simp add: commit_def handleFieldChange_def Let_def)
  next
    assume "fld = ''middleName''"
    then show ?thesis by (simp add: commit_def handleFieldChange_def Let_def)
  next
    assume "fld = ''lastName''"
    then show ?thesis by (simp add: commit_def handleFieldChange_def Let_def)
  qed
qed

lemma fullNameEffect_strings:
  assumes "fd ''firstName'' = Some (VStr a)" "fd ''middleName'' = Some (VStr b)"
    "fd ''lastName'' = Some (VStr c)"
  shows "fullNameEffect fd prev = prev(''fullName'' \<mapsto> VStr (fullNameOf a b c))"
  using assms by (simp add: fullNameEffect_def fullNameOf_def Let_def)

lemma stringAt_eq: "stringAt fd k = Some s \<longleftrightarrow> fd k = Some (VStr s)"
  by (simp add: stringAt_def split: option.splits jsval.splits)

lemma fullNameUpToDate_iff:
  "fullNameUpToDate fd \<longleftrightarrow>
     (\<exists>a b c. fd ''firstName'' = Some (VStr a) \<and> fd ''middleName'' = Some (VStr b)
        \<and> fd ''lastName'' = Some (VStr c) \<and> fd ''fullName'' = Some (VStr (fullNameOf a b c)))"
proof
  assume "fullNameUpToDate fd"
  then obtain a b c where "stringAt fd ''firstName'' = Some a" "stringAt fd ''middleName'' = Some b"
    "stringAt fd ''lastName'' = Some c" "fd ''fullName'' = Some (VStr (fullNameOf a b c))"
    unfolding fullNameUpToDate_def by (auto split: option.splits)
  then show "\<exists>a b c. fd ''firstName'' = Some (VStr a) \<and> fd ''middleName'' = Some (VStr b)
        \<and> fd ''lastName'' = Some (VStr c) \<and> fd ''fullName'' = Some (VStr (fullNameOf a b c))"
    unfolding stringAt_eq by blast
next
  assume "\<exists>a b c. fd ''firstName'' = Some (VStr a) \<and> fd ''middleName'' = Some (VStr b)
        \<and> fd ''lastName'' = Some (VStr c) \<and> fd ''fullName'' = Some (VStr (fullNameOf a b c))"
  then obtain a b c where "stringAt fd ''firstName'' = Some a" "stringAt fd ''middleName'' = Some b"
    "stringAt fd ''lastName'' = Some c" "fd ''fullName'' = Some (VStr (fullNameOf a b c))"
    unfolding stringAt_eq by blast
  then show "fullNameUpToDate fd" by (simp add: fullNameUpToDate_def)
qed

lemma fullNameUpToDateI:
  assumes "fd ''firstName'' = Some (VStr a)" "fd ''middleName'' = Some (VStr b)"
    "fd ''lastName'' = Some (VStr c)" "fd ''fullName'' = Some (VStr (fullNameOf a b c))"
  shows "fullNameUpToDate fd"
  unfolding fullNameUpToDate_iff using assms by blast

lemma map_upd_same: "m k = Some v \<Longrightarrow> m(k \<mapsto> v) = m"
  by (rule ext) simp

lemma fullNameEffect_upToDate:
  assumes "fd ''firstName'' = Some (VStr a)" "fd ''middleName'' = Some (VStr b)"
    "fd ''lastName'' = Some (VStr c)"
  shows "fullNameUpToDate (fullNameEffect fd fd)"
  unfolding fullNameEffect_strings [OF assms]
  by (rule fullNameUpToDateI [of _ a b c]) (simp_all add: assms)

lemma name_edit_keeps_fullName:
  assumes inv: "fullNameUpToDate (formData st)" and fld: "fld \<in> set nameFields"
  shows "fullNameUpToDate (formData (dispatch v c r (ChangeField fld x) st))"
proof -
  from inv obtain a b c' where
    n: "formData st ''firstName'' = Some (VStr a)" "formData st ''middleName'' = Some (VStr b)"
       "formData st ''lastName'' = Some (VStr c')"
    unfolding fullNameUpToDate_iff by blast
  let ?fd = "(formData st)(fld \<mapsto> VStr x)"
  have fd': "formData (dispatch v c r (ChangeField fld x) st) =
      (if formData st fld = Some (VStr x) then ?fd else fullNameEffect ?fd ?fd)"
    using commit_name_edit [OF fld, of c st x] by (simp add: dispatch_def)
  show ?thesis
  proof (cases "formData st fld = Some (VStr x)")
    case True
    then have "?fd = formData st" by (rule map_upd_same)
    with fd' True inv show ?thesis by simp
  next
    case False
    have "fld = ''firstName'' \<or> fld = ''middleName'' \<or> fld = ''lastName''"
      using fld by (rule nameFields_cases)
    then have "fullNameUpToDate (fullNameEffect ?fd ?fd)"
    proof (elim disjE)
      assume f: "fld = ''firstName''"
      show ?thesis
        by (rule fullNameEffect_upToDate [of _ x b c']) (simp_all add: f n)
    next
      assume f: "fld = ''middleName''"
      show ?thesis
        by (rule fullNameEffect_upToDate [of _ a x c']) (simp_all add: f n)
    next
      assume f: "fld = ''lastName''"
      show ?thesis
        by (rule fullNameEffect_upToDate [of _ a b x]) (simp_all add: f n)
    qed
    with fd' False show ?thesis by simp
  qed
qed

lemma initial_fullNameUpToDate: "fullNameUpToDate (formData initialState)"
  by (rule fullNameUpToDateI [of _ "[]" "[]" "[]"])
    (simp_all add: initialState_def initialFormData_def fullNameOf_def)

lemma fullNameUpToDate_cong:
  assumes "fd' ''firstName'' = fd ''firstName''" "fd' ''middleName'' = fd ''middleName''"
    "fd' ''lastName'' = fd ''lastName''" "fd' ''fullName'' = fd ''fullName''"
  shows "fullNameUpToDate fd' = fullNameUpToDate fd"
  by (simp only: fullNameUpToDate_iff assms)

lemma commit_formData_same:
  assumes "formData new = formData st"
  shows "formData (commit c st new) = formData st"
  using assms by (simp add: commit_def)

lemma commit_other_property:
  assumes "fld \<noteq> ''firstName''" "fld \<noteq> ''middleName''" "fld \<noteq> ''lastName''"
    and "k \<noteq> fld" "k \<noteq> ''age''"
  shows "formData (commit c st (st\<lparr>formData := (formData st)(fld \<mapsto> x)\<rparr>)) k = formData st k"
  using assms by (simp add: commit_def ageEffect_def Let_def split: option.splits)

lemma other_edit_keeps_fullName:
  assumes "fld \<noteq> ''firstName''" "fld \<noteq> ''middleName''" "fld \<noteq> ''lastName''"
    "fld \<noteq> ''fullName''"
  shows "fullNameUpToDate (formData (commit c st (st\<lparr>formData := (formData st)(fld \<mapsto> x)\<rparr>)))
     = fullNameUpToDate (formData st)"
  by (rule fullNameUpToDate_cong) (simp_all add: commit_other_property assms assms [symmetric])

lemma handle_formData:
  "formData (handle v r ToggleAgreeTerms st) = formData st"
  "formData (handle v r (ClickNavButton i) st) = formData st"
  "formData (handle v r (SelectSection s) st) = formData st"
  "formData (handle v r ClickPrevious st) = formData st"
  "formData (handle v r ClickNext st) = formData st"
  "formData (handle v r ClickSubmit st) = formData st"
  "formData (handle v r TimerFires st) = formData st"
  by (simp_all add: navButtonClick_def mobileSelectChange_def handlePrevious_def handleNext_def
      handleSubmit_def submitTimeout_def Let_def split: option.splits)

lemma pageEvent_keeps_fullName:
  assumes inv: "fullNameUpToDate (formData st)" and ev: "pageEvent ev"
  shows "fullNameUpToDate (formData (dispatch v c r ev st))"
proof (cases ev)
  case (ChangeField fld x)
  show ?thesis
  proof (cases "fld \<in> set nameFields")
    case True
    then show ?thesis using inv ChangeField by (simp add: name_edit_keeps_fullName)
  next
    case False
    then have n: "fld \<noteq> ''firstName''" "fld \<noteq> ''middleName''" "fld \<noteq> ''lastName''"
      by (auto simp: nameFields_def)
    have "''fullName'' \<notin> set textInputs" by (simp add: textInputs_def)
    with ev ChangeField have f: "fld \<noteq> ''fullName''" by auto
    show ?thesis
      using other_edit_keeps_fullName [OF n f, of c st "VStr x"] inv ChangeField
      by (simp add: dispatch_def handleFieldChange_def)
  qed
next
  case (ChangeCheckbox fld b)
  with ev have "fld \<in> set checkboxes" by simp
  then have n: "fld \<noteq> ''firstName''" "fld \<noteq> ''middleName''" "fld \<noteq> ''lastName''"
    "fld \<noteq> ''fullName''"
    by (auto simp: checkboxes_def)
  show ?thesis
    using other_edit_keeps_fullName [OF n, of c st "VBool b"] inv ChangeCheckbox
    by (simp add: dispatch_def handleCheckboxChange_def)
next
  case (ChangeFile fld files)
  with ev have "fld \<in> set photoSlots" by simp
  then have "commit c st (handleFileChange fld files st) = handleFileChange fld files st"
    by (rule commit_ChangeFile)
  moreover from \<open>fld \<in> set photoSlots\<close>
  have n: "fld \<noteq> ''firstName''" "fld \<noteq> ''middleName''" "fld \<noteq> ''lastName''"
    "fld \<noteq> ''fullName''"
    by (auto simp: photoSlots_def)
  have "fullNameUpToDate (formData (handleFileChange fld files st)) = fullNameUpToDate (formData st)"
    by (rule fullNameUpToDate_cong)
      (simp_all add: handleFileChange_def n n [symmetric] split: option.splits list.splits)
  ultimately show ?thesis using inv ChangeFile by (simp add: dispatch_def)
next
  case ToggleAgreeTerms
  then show ?thesis using inv by (simp add: dispatch_def commit_formData_same)
next
  case (ClickNavButton i)
  then show ?thesis using inv
    by (simp only: dispatch_def commit_formData_same [OF handle_formData(2)])
next
  case (SelectSection s)
  then show ?thesis using inv
    by (simp only: dispatch_def commit_formData_same [OF handle_formData(3)])
next
  case ClickPrevious
  then show ?thesis using inv
    by (simp only: dispatch_def commit_formData_same [OF handle_formData(4)])
next
  case ClickNext
  then show ?thesis using inv
    by (simp only: dispatch_def commit_formData_same [OF handle_formData(5)])
next
  case ClickSubmit
  then show ?thesis using inv
    by (simp only: dispatch_def commit_formData_same [OF handle_formData(6)])
next
  case TimerFires
  then show ?thesis using inv
    by (simp only: dispatch_def commit_formData_same [OF handle_formData(7)])
qed

lemma run_keeps_fullName:
  "fullNameUpToDate (formData st) \<Longrightarrow> list_all pageEvent evs \<Longrightarrow>
     fullNameUpToDate (formData (run v c r evs st))"
  by (induction evs arbitrary: st) (simp_all add: pageEvent_keeps_fullName)

lemma reachable_fullNameUpToDate:
  "list_all pageEvent evs \<Longrightarrow> fullNameUpToDate (formData (run v c r evs initialState))"
  using initial_fullNameUpToDate by (rule run_keeps_fullName)

lemma mount_effects_idle:
  "fullNameEffect initialFormData initialFormData = initialFormData"
  "ageEffect c initialFormData initialFormData = initialFormData"
proof -
  have "initialFormData ''fullName'' = Some (VStr [])" by (simp add: initialFormData_def)
  then have "initialFormData(''fullName'' \<mapsto> VStr []) = initialFormData" by (rule map_upd_same)
  moreover have "fullNameEffect initialFormData initialFormData = initialFormData(''fullName'' \<mapsto> VStr [])"
    by (rule fullNameEffect_strings [of _ "[]" "[]" "[]", unfolded fullNameOf_def, simplified])
      (simp_all add: initialFormData_def)
  ultimately show "fullNameEffect initialFormData initialFormData = initialFormData" by simp
  have "initialFormData ''dateOfBirth'' = Some (VStr [])" by (simp add: initialFormData_def)
  then show "ageEffect c initialFormData initialFormData = initialFormData"
    by (simp add: ageEffect_def)
qed

lemma noDoubleSpace_append:
  assumes "noDoubleSpace x" "noDoubleSpace y"
    and "x = [] \<or> y = [] \<or> last x \<noteq> CHR '' '' \<or> hd y \<noteq> CHR '' ''"
  shows "noDoubleSpace (x @ y)"
  using assms
proof (induction x rule: noDoubleSpace.induct)
  case 1
  then show ?case by simp
next
  case (2 a)
  then show ?case by (cases y) auto
next
  case (3 a b cs)
  then show ?case by simp
qed

lemma tidy_glue:
  assumes x: "tidy x" "x \<noteq> []" and t: "tidy t" "t \<noteq> []"
  shows "tidy (x @ '' '' @ t)"
proof -
  obtain c cs where xs: "x = c # cs" using x(2) by (cases x) auto
  obtain d ds where ts: "t = d # ds" using t(2) by (cases t) auto
  have hx: "c \<noteq> CHR '' ''" using x(1) xs by (simp add: tidy_def noLeadingSpace_def)
  have lx: "last x \<noteq> CHR '' ''"
    using x by (cases "rev x") (auto simp: tidy_def noTrailingSpace_def noLeadingSpace_def last_rev [symmetric] simp del: last_rev)
  have ht: "d \<noteq> CHR '' ''" using t(1) ts by (simp add: tidy_def noLeadingSpace_def)
  have lt: "noLeadingSpace (rev t)" using t(1) by (simp add: tidy_def noTrailingSpace_def)
  have 1: "noLeadingSpace (x @ '' '' @ t)" using hx xs by (simp add: noLeadingSpace_def)
  have "rev t \<noteq> []" using t(2) by simp
  then have 2: "noTrailingSpace (x @ '' '' @ t)"
    using lt by (cases "rev t") (auto simp: noTrailingSpace_def noLeadingSpace_def)
  have dt: "noDoubleSpace ('' '' @ t)" using t(1) ht ts by (simp add: tidy_def)
  have dx: "noDoubleSpace x" using x(1) by (simp add: tidy_def)
  have 3: "noDoubleSpace (x @ '' '' @ t)"
    using noDoubleSpace_append [OF dx dt] lx by simp
  show ?thesis using 1 2 3 by (simp add: tidy_def)
qed

lemma join_nonempty: "ps \<noteq> [] \<Longrightarrow> hd ps \<noteq> [] \<Longrightarrow> join sep ps \<noteq> []"
  by (induction sep ps rule: join.induct) simp_all

lemma tidy_join:
  "\<forall>p \<in> set ps. tidy p \<and> p \<noteq> [] \<Longrightarrow> tidy (join '' '' ps)"
proof (induction "'' ''" ps rule: join.induct)
  case 1
  show ?case by (simp add: tidy_def noLeadingSpace_def noTrailingSpace_def)
next
  case (2 x)
  then show ?case by simp
next
  case (3 x y ys)
  have t: "tidy (join '' '' (y # ys))" using 3 by simp
  have n: "join '' '' (y # ys) \<noteq> []" using 3(2) by (intro join_nonempty) simp_all
  have "tidy (x @ '' '' @ join '' '' (y # ys))"
    using tidy_glue [OF _ _ t n, of x] 3(2) by simp
  then show ?case by simp
qed

lemma tidy_fullNameOf:
  assumes "tidy a" "tidy b" "tidy c"
  shows "tidy (fullNameOf a b c)"
  unfolding fullNameOf_def using assms by (intro tidy_join) auto

text \<open>
  Claim C6, as the effect has it. Starting from a record whose full name is up to date
  (as it is in every state the page reaches, \<open>reachable_fullNameUpToDate\<close>), an
  edit of one of the three name fields leaves the full name up to date: it is the parts
  that are not empty, in the order first, middle, last, with one space between
  neighbours. It has no space at either end and no two
  spaces in a row provided none of the parts has: the parts are joined as they are
  typed, without trimming.
\<close>

theorem fullName_after_name_edit:
  assumes "fullNameUpToDate (formData st)" and "fld \<in> set nameFields"
  shows "fullNameUpToDate (formData (dispatch v c r (ChangeField fld x) st))
     \<and> (\<forall>a b l. formData (dispatch v c r (ChangeField fld x) st) ''firstName'' = Some (VStr a)
            \<and> formData (dispatch v c r (ChangeField fld x) st) ''middleName'' = Some (VStr b)
            \<and> formData (dispatch v c r (ChangeField fld x) st) ''lastName'' = Some (VStr l)
          \<longrightarrow> formData (dispatch v c r (ChangeField fld x) st) ''fullName''
                = Some (VStr (join '' '' (filter (\<lambda>p. p \<noteq> []) [a, b, l])))
              \<and> (tidy a \<and> tidy b \<and> tidy l
                   \<longrightarrow> tidy (join '' '' (filter (\<lambda>p. p \<noteq> []) [a, b, l]))))"
proof (intro conjI allI impI)
  let ?fd = "formData (dispatch v c r (ChangeField fld x) st)"
  show u: "fullNameUpToDate ?fd"
    using assms by (rule name_edit_keeps_fullName)
  fix a b l
  assume p: "?fd ''firstName'' = Some (VStr a) \<and> ?fd ''middleName'' = Some (VStr b)
            \<and> ?fd ''lastName'' = Some (VStr l)"
  from u obtain a' b' l' where
    q: "?fd ''firstName'' = Some (VStr a')" "?fd ''middleName'' = Some (VStr b')"
       "?fd ''lastName'' = Some (VStr l')" "?fd ''fullName'' = Some (VStr (fullNameOf a' b' l'))"
    unfolding fullNameUpToDate_iff by blast
  from p q have "a' = a" "b' = b" "l' = l" by simp_all
  with q(4) show "?fd ''fullName'' = Some (VStr (join '' '' (filter (\<lambda>p. p \<noteq> []) [a, b, l])))"
    by (simp only: fullNameOf_def)
  assume "tidy a \<and> tidy b \<and> tidy l"
  then have "tidy (fullNameOf a b l)" by (intro tidy_fullNameOf) simp_all
  then show "tidy (join '' '' (filter (\<lambda>p. p \<noteq> []) [a, b, l]))"
    by (simp only: fullNameOf_def)
qed

theorem fullName_after_name_edit_witness:
  "fullNameUpToDate (formData initialState) \<and> ''firstName'' \<in> set nameFields
   \<and> fullNameUpToDate (formData (dispatch (\<lambda>fd s. []) (\<lambda>d. None) (\<lambda>d lo hi. True)
        (ChangeField ''firstName'' ''Ann'') initialState))
   \<and> formData (dispatch (\<lambda>fd s. []) (\<lambda>d. None) (\<lambda>d lo hi. True)
        (ChangeField ''firstName'' ''Ann'') initialState) ''fullName'' = Some (VStr ''Ann'')
   \<and> tidy ''Ann''"
proof -
  let ?st = "dispatch (\<lambda>fd s. []) (\<lambda>d. None) (\<lambda>d lo hi. True)
        (ChangeField ''firstName'' ''Ann'') initialState"
  have h1: "fullNameUpToDate (formData initialState)" by (rule initial_fullNameUpToDate)
  have h2: "''firstName'' \<in> set nameFields" by (simp add: nameFields_def)
  note t = fullName_after_name_edit [OF h1 h2, of "\<lambda>fd s. []" "\<lambda>d. None" "\<lambda>d lo hi. True" "''Ann''"]
  have p: "formData ?st ''firstName'' = Some (VStr ''Ann'')
      \<and> formData ?st ''middleName'' = Some (VStr [])
      \<and> formData ?st ''lastName'' = Some (VStr [])"
    by (simp add: dispatch_def commit_def handleFieldChange_def fullNameEffect_def Let_def
      initialState_def initialFormData_def)
  note u = mp [OF spec [OF spec [OF spec [OF conjunct2 [OF t]]]] p]
  have ty: "tidy ''Ann'' \<and> tidy [] \<and> tidy []"
    by (simp add: tidy_def noLeadingSpace_def noTrailingSpace_def)
  from u ty have "formData ?st ''fullName'' = Some (VStr ''Ann'')" "tidy ''Ann''"
    by simp_all
  then show ?thesis using h1 h2 conjunct1 [OF t] by simp
qed

text \<open>
  The claim as written holds for every triple of values. With the first name typed
  as \<open>Ann\<close> followed by a space, and the last name \<open>Lee\<close>, the full name
  has two spaces in a row.
\<close>

theorem fullName_double_space_counterexample:
  "formData
     (dispatch (\<lambda>fd s. []) (\<lambda>d. None) (\<lambda>d lo hi. True) (ChangeField ''lastName'' ''Lee'')
        (dispatch (\<lambda>fd s. []) (\<lambda>d. None) (\<lambda>d lo hi. True) (ChangeField ''firstName'' ''Ann '')
           initialState))
     ''fullName'' = Some (VStr ''Ann  Lee'')
   \<and> \<not> noDoubleSpace ''Ann  Lee''"
  by (simp add: dispatch_def commit_def handleFieldChange_def fullNameEffect_def Let_def
      initialState_def initialFormData_def)

section \<open>The age\<close>

lemma commit_dob_edit:
  "formData (commit c st (handleFieldChange ''dateOfBirth'' x st)) =
     (if formData st ''dateOfBirth'' = Some (VStr x) \<or> x = []
      then (formData st)(''dateOfBirth'' \<mapsto> VStr x)
      else (formData st)(''dateOfBirth'' \<mapsto> VStr x, ''age'' \<mapsto> VStr (numToString (c (VStr x)))))"
  by (simp add: commit_def handleFieldChange_def ageEffect_def Let_def)

text \<open>
  Claim C5, as the effect has it. An edit that empties the date of birth leaves the age
  property as it was. An edit that changes the date of birth to a value that is not
  empty sets the age to the printed result of the age helper, which for a date
  \<^verbatim>\<open>YYYY-MM-DD\<close> is the difference of the years, one less when the birthday has
  not yet come this year.
\<close>

theorem age_after_dateOfBirth_edit:
  "formData (dispatch v c r (ChangeField ''dateOfBirth'' [] ) st) ''age'' = formData st ''age''
   \<and> (x \<noteq> [] \<and> formData st ''dateOfBirth'' \<noteq> Some (VStr x) \<longrightarrow>
        formData (dispatch v c r (ChangeField ''dateOfBirth'' x) st) ''age''
          = Some (VStr (numToString (c (VStr x)))))
   \<and> (\<forall>d. x \<noteq> [] \<and> formData st ''dateOfBirth'' \<noteq> Some (VStr x) \<and> parseDate x = Some d \<longrightarrow>
        formData (dispatch v (calculateAge today) r (ChangeField ''dateOfBirth'' x) st) ''age''
          = Some (VStr (numToString (Some (year today - year d -
                (if month today < month d \<or> (month today = month d \<and> day today < day d)
                 then 1 else 0))))))"
proof (intro conjI allI impI)
  show "formData (dispatch v c r (ChangeField ''dateOfBirth'' [] ) st) ''age'' = formData st ''age''"
    by (simp add: dispatch_def commit_dob_edit)
next
  assume "x \<noteq> [] \<and> formData st ''dateOfBirth'' \<noteq> Some (VStr x)"
  then show "formData (dispatch v c r (ChangeField ''dateOfBirth'' x) st) ''age''
          = Some (VStr (numToString (c (VStr x))))"
    by (simp add: dispatch_def commit_dob_edit)
next
  fix d
  assume a: "x \<noteq> [] \<and> formData st ''dateOfBirth'' \<noteq> Some (VStr x) \<and> parseDate x = Some d"
  then have "calculateAge today (VStr x) = Some (year today - year d -
                (if month today < month d \<or> (month today = month d \<and> day today < day d)
                 then 1 else 0))"
    by (simp add: calculateAge_def)
  with a show "formData (dispatch v (calculateAge today) r (ChangeField ''dateOfBirth'' x) st) ''age''
          = Some (VStr (numToString (Some (year today - year d -
                (if month today < month d \<or> (month today = month d \<and> day today < day d)
                 then 1 else 0)))))"
    by (simp add: dispatch_def commit_dob_edit)
qed

theorem age_after_dateOfBirth_edit_witness:
  "''2000-06-15'' \<noteq> [] \<and> formData initialState ''dateOfBirth'' \<noteq> Some (VStr ''2000-06-15'')
   \<and> parseDate ''2000-06-15'' = Some \<lparr>year = 2000, month = 6, day = 15\<rparr>
   \<and> formData (dispatch (\<lambda>fd s. []) (calculateAge \<lparr>year = 2024, month = 6, day = 14\<rparr>)
        (\<lambda>d lo hi. True) (ChangeField ''dateOfBirth'' ''2000-06-15'') initialState) ''age''
      = Some (VStr ''23'')
   \<and> formData (dispatch (\<lambda>fd s. []) (calculateAge \<lparr>year = 2024, month = 6, day = 15\<rparr>)
        (\<lambda>d lo hi. True) (ChangeField ''dateOfBirth'' ''2000-06-15'') initialState) ''age''
      = Some (VStr ''24'')"
proof -
  let ?x = "''2000-06-15''"
  let ?d = "\<lparr>year = 2000, month = 6, day = 15\<rparr>"
  have h: "?x \<noteq> [] \<and> formData initialState ''dateOfBirth'' \<noteq> Some (VStr ?x) \<and> parseDate ?x = Some ?d"
    by (simp add: initialState_def initialFormData_def parseDate_def digitVal_def)
  have s: "numToString (Some 23) = ''23''" "numToString (Some 24) = ''24''"
    by (simp_all add: numToString_def showNat.simps digitChar_def)
  note t = age_after_dateOfBirth_edit [of "\<lambda>fd s. []" _ "\<lambda>d lo hi. True" initialState ?x]
  note a = mp [OF spec [OF conjunct2 [OF conjunct2 [OF t [of _ "\<lparr>year = 2024, month = 6, day = 14\<rparr>"]]], of ?d] h]
  note b = mp [OF spec [OF conjunct2 [OF conjunct2 [OF t [of _ "\<lparr>year = 2024, month = 6, day = 15\<rparr>"]]], of ?d] h]
  show ?thesis using h a b by (simp add: s)
qed

text \<open>
  The claim as written has the age cleared when the date of birth is emptied. After
  the date of birth is set to 2000-06-15 (on 2024-06-15) and then emptied, the age
  is still 24.
\<close>

theorem age_kept_when_date_cleared_counterexample:
  "formData
     (dispatch (\<lambda>fd s. []) (calculateAge \<lparr>year = 2024, month = 6, day = 15\<rparr>) (\<lambda>d lo hi. True)
        (ChangeField ''dateOfBirth'' [])
        (dispatch (\<lambda>fd s. []) (calculateAge \<lparr>year = 2024, month = 6, day = 15\<rparr>)
           (\<lambda>d lo hi. True) (ChangeField ''dateOfBirth'' ''2000-06-15'') initialState))
     ''age'' = Some (VStr ''24'')"
proof -
  let ?c = "calculateAge \<lparr>year = 2024, month = 6, day = 15\<rparr>"
  have c: "?c (VStr ''2000-06-15'') = Some 24"
    by (simp add: calculateAge_def parseDate_def digitVal_def)
  have i: "formData initialState ''dateOfBirth'' = Some (VStr [])"
    by (simp add: initialState_def initialFormData_def)
  have s24: "numToString (Some 24) = ''24''"
    by (simp add: numToString_def showNat.simps digitChar_def)
  show ?thesis
    by (simp add: dispatch_def commit_dob_edit i c s24)
qed

section \<open>Counting words\<close>

lemma countFrom_dropWhile: "countFrom False (dropWhile isWhitespace s) = countFrom False s"
  by (induction s) simp_all

lemma countFrom_append_whitespace:
  "\<forall>c \<in> set t. isWhitespace c \<Longrightarrow> countFrom b (s @ t) = countFrom b s"
proof (induction s arbitrary: b)
  case Nil
  then show ?case by (induction t arbitrary: b) simp_all
next
  case (Cons c s)
  then show ?case by simp
qed

lemma countFrom_trim: "countFrom False (trim s) = countFrom False s"
proof -
  let ?d = "dropWhile isWhitespace s"
  have "trim s @ rev (takeWhile isWhitespace (rev ?d))
      = rev (takeWhile isWhitespace (rev ?d) @ dropWhile isWhitespace (rev ?d))"
    by (simp only: trim_def rev_append)
  also have "\<dots> = ?d"
    by (simp only: takeWhile_dropWhile_id rev_rev_ident)
  finally have split: "?d = trim s @ rev (takeWhile isWhitespace (rev ?d))" by (rule sym)
  have "\<forall>c \<in> set (rev (takeWhile isWhitespace (rev ?d))). isWhitespace c"
    by (auto dest: set_takeWhileD)
  then have "countFrom False (trim s @ rev (takeWhile isWhitespace (rev ?d))) = countFrom False (trim s)"
    by (rule countFrom_append_whitespace)
  with split have "countFrom False ?d = countFrom False (trim s)" by simp
  then show ?thesis by (simp add: countFrom_dropWhile)
qed

lemma countFrom_word:
  "\<forall>c \<in> set w. \<not> isWhitespace c \<Longrightarrow> w \<noteq> [] \<Longrightarrow>
     countFrom b (w @ t) = (if b then 0 else 1) + countFrom True t"
proof (induction w arbitrary: b)
  case Nil
  then show ?case by simp
next
  case (Cons c w)
  show ?case
  proof (cases "w = []")
    case True
    with Cons.prems show ?thesis by simp
  next
    case False
    with Cons show ?thesis by simp
  qed
qed

lemma countFrom_after_word:
  "t = [] \<or> isWhitespace (hd t) \<Longrightarrow> countFrom b t = countFrom False (dropWhile isWhitespace (tl t))"
  by (cases t) (simp_all add: countFrom_dropWhile)

lemma split_count:
  "length (filter (\<lambda>w. w \<noteq> []) (splitWhitespace s)) = countFrom False s"
proof (induction s rule: splitWhitespace.induct)
  case (1 s)
  let ?piece = "takeWhile (\<lambda>c. \<not> isWhitespace c) s"
  let ?rest = "dropWhile (\<lambda>c. \<not> isWhitespace c) s"
  have s: "s = ?piece @ ?rest" by simp
  have pw: "\<forall>c \<in> set ?piece. \<not> isWhitespace c" by (auto dest: set_takeWhileD)
  have rw: "?rest = [] \<or> isWhitespace (hd ?rest)"
    using hd_dropWhile [of "\<lambda>c. \<not> isWhitespace c" s] by auto
  have cnt: "countFrom False s = (if ?piece = [] then 0 else 1) + countFrom False (dropWhile isWhitespace (tl ?rest))"
  proof (cases "?piece = []")
    case True
    then have "s = ?rest" using s by simp
    then have "countFrom False s = countFrom False ?rest" by simp
    also have "\<dots> = countFrom False (dropWhile isWhitespace (tl ?rest))"
      using countFrom_after_word [OF rw] .
    finally show ?thesis using True by simp
  next
    case False
    have "countFrom False s = countFrom False (?piece @ ?rest)" using s by simp
    also have "\<dots> = 1 + countFrom True ?rest"
      using countFrom_word [OF pw False, of False ?rest] by simp
    also have "countFrom True ?rest = countFrom False (dropWhile isWhitespace (tl ?rest))"
      using countFrom_after_word [OF rw] .
    finally show ?thesis using False by simp
  qed
  note unfold = splitWhitespace.simps [of s, unfolded Let_def]
  show ?case
  proof (cases "?rest = []")
    case True
    have "splitWhitespace s = [?piece]"
      by (simp only: unfold True simp_thms if_True)
    then show ?thesis using cnt True by simp
  next
    case False
    have sp: "splitWhitespace s = ?piece # splitWhitespace (dropWhile isWhitespace (tl ?rest))"
      by (simp only: unfold False if_False)
    have ih: "length (filter (\<lambda>w. w \<noteq> []) (splitWhitespace (dropWhile isWhitespace (tl ?rest))))
          = countFrom False (dropWhile isWhitespace (tl ?rest))"
      using "1.IH" [OF refl refl False] .
    show ?thesis unfolding sp using ih cnt by simp
  qed
qed

text \<open>
  Claim C9. The inline counter returns, for every string, the number of maximal
  sequences of characters that are not whitespace; whitespace at the ends and the
  length of a run of whitespace do not change the count. It is a function of the string
  alone, so two calls on the same string agree. On the two strings of the spec the
  count is 3, and a no-break space separates two words as a space does.
\<close>

theorem inlineWordCount_counts_words:
  "inlineWordCount s = countWordRuns s
   \<and> inlineWordCount (trim s) = inlineWordCount s
   \<and> inlineWordCount ''  a  b   c '' = 3
   \<and> inlineWordCount ''a b c'' = 3
   \<and> inlineWordCount [CHR ''a'', CHR 0xA0, CHR ''b''] = 2"
proof -
  have eq: "inlineWordCount t = countWordRuns t" for t
    by (cases "t = []")
      (simp_all add: inlineWordCount_def countWordRuns_def split_count countFrom_trim)
  have tr: "countWordRuns (trim s) = countWordRuns s"
    by (simp add: countWordRuns_def countFrom_trim)
  have ex: "countWordRuns ''  a  b   c '' = 3" "countWordRuns ''a b c'' = 3"
    "countWordRuns [CHR ''a'', CHR 0xA0, CHR ''b''] = 2"
    by (simp_all add: countWordRuns_def isWhitespace_def)
  show ?thesis by (simp add: eq tr ex)
qed

end
